theory Spec2Isabelle
  imports Main "HOL-Library.Word"
begin

unbundle bit_operations_syntax

section \<open>The sensors poll context of libsensors/sensors.cpp\<close>

text \<open>
  The file embeds \<^verbatim>\<open>sensors_poll_context_t\<close>: the static mapping
  \<^verbatim>\<open>handleToDriver\<close>, the control operations \<^verbatim>\<open>activate\<close> and
  \<^verbatim>\<open>setDelay\<close>, and the loop of \<^verbatim>\<open>pollEvents\<close>.

  C \<^verbatim>\<open>int\<close> and \<^verbatim>\<open>int64_t\<close> values are HOL integers. The code
  compares them, negates an errno, and adds and subtracts the counts that
  \<^verbatim>\<open>readEvents\<close> returns. Those sums stay between 0 and the requested capacity
  when the drivers keep to their contract, and the statements about sums assume that
  contract; no other statement depends on the width of a sum. The \<^verbatim>\<open>short\<close> flag words of a
  \<^verbatim>\<open>pollfd\<close> are 16-bit words, since the code masks them.
\<close>

subsection \<open>Constants\<close>

text \<open>Values of the Linux system headers \<^verbatim>\<open>errno.h\<close> and \<^verbatim>\<open>poll.h\<close>.\<close>

definition EINVAL :: int where
  "EINVAL = 22"

definition POLLIN :: "16 word" where
  "POLLIN = 1"

text \<open>
  The anonymous enum of the class, with \<^verbatim>\<open>USE_MPU\<close> undefined and
  \<^verbatim>\<open>USE_NCT\<close> defined as in the file.
\<close>

definition light :: nat where
  "light = 0"

definition kxt :: nat where
  "kxt = 1"

definition akm :: nat where
  "akm = 2"

definition nct :: nat where
  "nct = 3"

definition proximity :: nat where
  "proximity = 4"

definition numSensorDrivers :: nat where
  "numSensorDrivers = 5"

definition numFds :: nat where
  "numFds = 6"

definition wake :: nat where
  "wake = numFds - 1"

definition WAKE_MESSAGE :: char where
  "WAKE_MESSAGE = CHR ''W''"

text \<open>
  The sensor identifiers \<^verbatim>\<open>ID_A\<close>, \<^verbatim>\<open>ID_M\<close>, ... are macros of
  \<^verbatim>\<open>sensors.h\<close>, which is not among the sources. They are a parameter of the model:
  one record holding the value of each macro the mapping uses.
\<close>

record sensor_ids =
  ID_A :: int
  ID_M :: int
  ID_O :: int
  ID_P :: int
  ID_L :: int
  ID_T :: int

subsection \<open>Data\<close>

text \<open>\<^verbatim>\<open>struct pollfd\<close>.\<close>

record pollfd =
  fd :: int
  events :: "16 word"
  revents :: "16 word"

text \<open>
  Every call by which the context can change a collaborator (a driver or the kernel) is
  recorded, in program order. \<^verbatim>\<open>hasPendingEvents\<close> is a query and is not
  recorded; the logging macros are not modelled.
\<close>

datatype call =
    Enable nat int int
  | SetDelay nat int int
  | ReadEvents nat int
  | Poll nat int
  | ReadFd int nat
  | WriteFd int string

text \<open>
  The drivers (\<^verbatim>\<open>SensorBase\<close> objects in \<^verbatim>\<open>mSensors\<close>) and the system
  calls are outside the file. Their behaviour is a parameter: functions over a state
  \<open>'w\<close> of everything outside the context (driver objects, kernel, hardware).
  A driver is named by its slot. \<^verbatim>\<open>readEvents\<close> yields the returned
  \<^verbatim>\<open>int\<close> and the records it stored at \<^verbatim>\<open>data[0]\<close>,
  \<^verbatim>\<open>data[1]\<close>, ...; \<^verbatim>\<open>poll\<close> yields its return value, the
  \<^verbatim>\<open>revents\<close> it stored for each entry, and \<^verbatim>\<open>errno\<close> as it is
  read afterwards; \<^verbatim>\<open>read\<close> yields its return value and the bytes stored.
\<close>

record ('w, 'e) env =
  drv_enable :: "nat \<Rightarrow> int \<Rightarrow> int \<Rightarrow> 'w \<Rightarrow> int \<times> 'w"
  drv_setDelay :: "nat \<Rightarrow> int \<Rightarrow> int \<Rightarrow> 'w \<Rightarrow> int \<times> 'w"
  drv_hasPendingEvents :: "nat \<Rightarrow> 'w \<Rightarrow> bool"
  drv_readEvents :: "nat \<Rightarrow> int \<Rightarrow> 'w \<Rightarrow> (int \<times> 'e list) \<times> 'w"
  sys_poll :: "pollfd list \<Rightarrow> nat \<Rightarrow> int \<Rightarrow> 'w \<Rightarrow> (int \<times> (nat \<Rightarrow> 16 word) \<times> int) \<times> 'w"
  sys_read :: "int \<Rightarrow> nat \<Rightarrow> 'w \<Rightarrow> (int \<times> string) \<times> 'w"
  sys_write :: "int \<Rightarrow> string \<Rightarrow> 'w \<Rightarrow> int \<times> 'w"

text \<open>
  The context: the members \<^verbatim>\<open>mPollFds\<close> and \<^verbatim>\<open>mWritePipeFd\<close>,
  the state of the collaborators, and the calls made so far.
\<close>

record 'w sensors_poll_context_t =
  mPollFds :: "pollfd list"
  mWritePipeFd :: int
  world :: 'w
  calls :: "call list"

subsection \<open>The static mapping\<close>

definition handleToDriver :: "sensor_ids \<Rightarrow> int \<Rightarrow> int" where
  "handleToDriver ids handle =
     (if handle = ID_A ids then int kxt
      else if handle = ID_M ids \<or> handle = ID_O ids then int akm
      else if handle = ID_P ids then int proximity
      else if handle = ID_L ids then int light
      else if handle = ID_T ids then int nct
      else - EINVAL)"

definition mapped :: "sensor_ids \<Rightarrow> int set" where
  "mapped ids = {ID_A ids, ID_M ids, ID_O ids, ID_P ids, ID_L ids, ID_T ids}"

subsection \<open>activate and setDelay\<close>

definition activate ::
  "sensor_ids \<Rightarrow> ('w, 'e) env \<Rightarrow> int \<Rightarrow> int \<Rightarrow> 'w sensors_poll_context_t
    \<Rightarrow> int \<times> 'w sensors_poll_context_t" where
  "activate ids env handle enabled c =
     (let index = handleToDriver ids handle in
      if index < 0 then (index, c)
      else
        let (err, w1) = drv_enable env (nat index) handle enabled (world c);
            c1 = c\<lparr>world := w1, calls := calls c @ [Enable (nat index) handle enabled]\<rparr>
        in if enabled \<noteq> 0 \<and> err = 0 then
             let (result, w2) = sys_write env (mWritePipeFd c1) [WAKE_MESSAGE] w1
             in (err, c1\<lparr>world := w2,
                         calls := calls c1 @ [WriteFd (mWritePipeFd c1) [WAKE_MESSAGE]]\<rparr>)
           else (err, c1))"

definition setDelay ::
  "sensor_ids \<Rightarrow> ('w, 'e) env \<Rightarrow> int \<Rightarrow> int \<Rightarrow> 'w sensors_poll_context_t
    \<Rightarrow> int \<times> 'w sensors_poll_context_t" where
  "setDelay ids env handle ns c =
     (let index = handleToDriver ids handle in
      if index < 0 then (index, c)
      else
        let (err, w1) = drv_setDelay env (nat index) handle ns (world c)
        in (err, c\<lparr>world := w1, calls := calls c @ [SetDelay (nat index) handle ns]\<rparr>))"

subsection \<open>pollEvents\<close>

text \<open>
  The parameters and locals of \<^verbatim>\<open>pollEvents\<close>, with the context. The caller's
  buffer is a store indexed from the pointer the caller passed, so \<^verbatim>\<open>data\<close> is
  an offset into it; \<open>n_ready\<close> is the local \<^verbatim>\<open>n\<close>.
\<close>

record ('w, 'e) poll_frame =
  cx :: "'w sensors_poll_context_t"
  buf :: "int \<Rightarrow> 'e option"
  data :: int
  count :: int
  nbEvents :: int
  n_ready :: int

fun storeEvents :: "(int \<Rightarrow> 'e option) \<Rightarrow> int \<Rightarrow> 'e list \<Rightarrow> (int \<Rightarrow> 'e option)" where
  "storeEvents b p [] = b"
| "storeEvents b p (e # es) = storeEvents (b(p \<mapsto> e)) (p + 1) es"

text \<open>The condition of the \<^verbatim>\<open>if\<close> in the \<^verbatim>\<open>for\<close> loop.\<close>

definition sensorReady :: "('w, 'e) env \<Rightarrow> nat \<Rightarrow> ('w, 'e) poll_frame \<Rightarrow> bool" where
  "sensorReady env i s \<longleftrightarrow>
     revents (mPollFds (cx s) ! i) AND POLLIN \<noteq> 0 \<or> drv_hasPendingEvents env i (world (cx s))"

text \<open>The body of that \<^verbatim>\<open>if\<close>: one \<^verbatim>\<open>readEvents\<close> call and the bookkeeping.\<close>

definition readSensor :: "('w, 'e) env \<Rightarrow> nat \<Rightarrow> ('w, 'e) poll_frame \<Rightarrow> ('w, 'e) poll_frame" where
  "readSensor env i s =
     (let ((nb, evs), w1) = drv_readEvents env i (count s) (world (cx s));
          c1 = (cx s)\<lparr>world := w1, calls := calls (cx s) @ [ReadEvents i (count s)]\<rparr>;
          c2 = (if nb < count s
                then c1\<lparr>mPollFds := (mPollFds c1)[i := (mPollFds c1 ! i)\<lparr>revents := 0\<rparr>]\<rparr>
                else c1)
      in s\<lparr>cx := c2, buf := storeEvents (buf s) (data s) evs,
            count := count s - nb, nbEvents := nbEvents s + nb, data := data s + nb\<rparr>)"

definition drainStep :: "('w, 'e) env \<Rightarrow> nat \<Rightarrow> ('w, 'e) poll_frame \<Rightarrow> ('w, 'e) poll_frame" where
  "drainStep env i s = (if sensorReady env i s then readSensor env i s else s)"

text \<open>The \<^verbatim>\<open>for\<close> loop, from index \<open>i\<close> on.\<close>

function drainPass :: "('w, 'e) env \<Rightarrow> nat \<Rightarrow> ('w, 'e) poll_frame \<Rightarrow> ('w, 'e) poll_frame" where
  "drainPass env i s =
     (if count s \<noteq> 0 \<and> i < numSensorDrivers then drainPass env (Suc i) (drainStep env i s) else s)"
  by pat_completeness auto
termination
  by (relation "measure (\<lambda>(env, i, s). numSensorDrivers - i)") auto

declare drainPass.simps [simp del]

text \<open>\<^verbatim>\<open>poll\<close> stores a \<^verbatim>\<open>revents\<close> in each of the first \<open>nfds\<close> entries.\<close>

definition setRevents :: "(nat \<Rightarrow> 16 word) \<Rightarrow> nat \<Rightarrow> pollfd list \<Rightarrow> pollfd list" where
  "setRevents rv nfds fds =
     map (\<lambda>i. if i < nfds then (fds ! i)\<lparr>revents := rv i\<rparr> else fds ! i) [0..<length fds]"

definition pollTimeout :: "('w, 'e) poll_frame \<Rightarrow> int" where
  "pollTimeout s = (if nbEvents s \<noteq> 0 then 0 else - 1)"

text \<open>
  The body of \<^verbatim>\<open>if (count)\<close>. The first component is the value of the early
  \<^verbatim>\<open>return -errno\<close>, if it is taken.
\<close>

definition waitPass :: "('w, 'e) env \<Rightarrow> ('w, 'e) poll_frame \<Rightarrow> int option \<times> ('w, 'e) poll_frame" where
  "waitPass env s =
     (let ((r, rv, errno), w1) = sys_poll env (mPollFds (cx s)) numFds (pollTimeout s) (world (cx s));
          fds1 = setRevents rv numFds (mPollFds (cx s));
          c1 = (cx s)\<lparr>mPollFds := fds1, world := w1,
                      calls := calls (cx s) @ [Poll numFds (pollTimeout s)]\<rparr>
      in if r < 0 then (Some (- errno), s\<lparr>cx := c1, n_ready := r\<rparr>)
         else if revents (fds1 ! wake) AND POLLIN \<noteq> 0 then
           let ((result, msg), w2) = sys_read env (fd (fds1 ! wake)) 1 w1;
               c2 = c1\<lparr>mPollFds := fds1[wake := (fds1 ! wake)\<lparr>revents := 0\<rparr>], world := w2,
                       calls := calls c1 @ [ReadFd (fd (fds1 ! wake)) 1]\<rparr>
           in (None, s\<lparr>cx := c2, n_ready := r\<rparr>)
         else (None, s\<lparr>cx := c1, n_ready := r\<rparr>))"

text \<open>One pass of the \<^verbatim>\<open>do\<close> body.\<close>

definition pollBody :: "('w, 'e) env \<Rightarrow> ('w, 'e) poll_frame \<Rightarrow> int option \<times> ('w, 'e) poll_frame" where
  "pollBody env s =
     (let s1 = drainPass env 0 s in if count s1 \<noteq> 0 then waitPass env s1 else (None, s1))"

text \<open>
  The \<^verbatim>\<open>do ... while (n && count)\<close> loop. It need not end (a \<^verbatim>\<open>poll\<close> that
  keeps reporting a handle whose driver has nothing to read), so it runs on fuel, one unit
  for each pass; \<open>None\<close> is a loop that has not returned yet. \<open>Inl\<close> is the early
  return, \<open>Inr\<close> the final \<^verbatim>\<open>return nbEvents\<close>.
\<close>

fun pollLoop ::
  "('w, 'e) env \<Rightarrow> nat \<Rightarrow> ('w, 'e) poll_frame \<Rightarrow> ((int + int) \<times> ('w, 'e) poll_frame) option" where
  "pollLoop env 0 s = None"
| "pollLoop env (Suc k) s =
     (case pollBody env s of
        (Some e, s') \<Rightarrow> Some (Inl e, s')
      | (None, s') \<Rightarrow>
          if n_ready s' \<noteq> 0 \<and> count s' \<noteq> 0 then pollLoop env k s'
          else Some (Inr (nbEvents s'), s'))"

definition enter :: "'w sensors_poll_context_t \<Rightarrow> (int \<Rightarrow> 'e option) \<Rightarrow> int \<Rightarrow> ('w, 'e) poll_frame" where
  "enter c b cap = \<lparr>cx = c, buf = b, data = 0, count = cap, nbEvents = 0, n_ready = 0\<rparr>"

definition pollEvents ::
  "('w, 'e) env \<Rightarrow> nat \<Rightarrow> (int \<Rightarrow> 'e option) \<Rightarrow> int \<Rightarrow> 'w sensors_poll_context_t
    \<Rightarrow> ((int + int) \<times> ('w, 'e) poll_frame) option" where
  "pollEvents env fuel b cap c = pollLoop env fuel (enter c b cap)"

text \<open>The value the C function returns.\<close>

fun retval :: "int + int \<Rightarrow> int" where
  "retval (Inl e) = e"
| "retval (Inr k) = k"

text \<open>The frames at the head of a pass of the loop that started in \<open>s\<close>.\<close>

inductive reach :: "('w, 'e) env \<Rightarrow> ('w, 'e) poll_frame \<Rightarrow> ('w, 'e) poll_frame \<Rightarrow> bool"
  for env :: "('w, 'e) env" and s :: "('w, 'e) poll_frame" where
  reach_start: "reach env s s"
| reach_pass: "reach env s s1 \<Longrightarrow> pollBody env s1 = (None, s2) \<Longrightarrow>
     n_ready s2 \<noteq> 0 \<and> count s2 \<noteq> 0 \<Longrightarrow> reach env s s2"

text \<open>The calls made between an earlier and a later context.\<close>

definition newCalls :: "'w sensors_poll_context_t \<Rightarrow> 'w sensors_poll_context_t \<Rightarrow> call list" where
  "newCalls c c' = drop (length (calls c)) (calls c')"

subsection \<open>The drivers' contract\<close>

text \<open>
  What the specification asks of the value \<^verbatim>\<open>readEvents\<close> returns: between 0
  and the offered room.
\<close>

definition readEvents_bounded :: "('w, 'e) env \<Rightarrow> bool" where
  "readEvents_bounded env \<longleftrightarrow>
     (\<forall>i room w. 0 \<le> room \<longrightarrow>
        0 \<le> fst (fst (drv_readEvents env i room w)) \<and> fst (fst (drv_readEvents env i room w)) \<le> room)"

subsection \<open>A simulated environment\<close>

text \<open>
  A small concrete environment, used to run the model: each driver has a queue of
  buffered events (numbers), the wake pipe is a byte queue, \<^verbatim>\<open>poll\<close> fails with
  \<open>poll_errno\<close> when that is not 0 and otherwise reports the handles that have data,
  and \<^verbatim>\<open>enable\<close> returns \<open>enable_err\<close>.
\<close>

record sim_world =
  queues :: "nat list list"
  pipe :: string
  poll_errno :: int
  enable_err :: int

definition sim_revents :: "sim_world \<Rightarrow> nat \<Rightarrow> 16 word" where
  "sim_revents w i =
     (if i < numSensorDrivers then (if queues w ! i \<noteq> [] then POLLIN else 0)
      else if i = wake \<and> pipe w \<noteq> [] then POLLIN else 0)"

definition sim_readEvents :: "nat \<Rightarrow> int \<Rightarrow> sim_world \<Rightarrow> (int \<times> nat list) \<times> sim_world" where
  "sim_readEvents i room w =
     (let q = queues w ! i; k = min (nat room) (length q)
      in ((int k, take k q), w\<lparr>queues := (queues w)[i := drop k q]\<rparr>))"

definition sim_poll ::
  "pollfd list \<Rightarrow> nat \<Rightarrow> int \<Rightarrow> sim_world \<Rightarrow> (int \<times> (nat \<Rightarrow> 16 word) \<times> int) \<times> sim_world" where
  "sim_poll fds nfds timeout w =
     (if poll_errno w \<noteq> 0 then ((- 1, (\<lambda>i. 0), poll_errno w), w)
      else ((int (length (filter (\<lambda>i. sim_revents w i \<noteq> 0) [0..<nfds])), sim_revents w, 0), w))"

definition sim_read :: "int \<Rightarrow> nat \<Rightarrow> sim_world \<Rightarrow> (int \<times> string) \<times> sim_world" where
  "sim_read f k w =
     ((int (min k (length (pipe w))), take k (pipe w)), w\<lparr>pipe := drop k (pipe w)\<rparr>)"

definition sim_write :: "int \<Rightarrow> string \<Rightarrow> sim_world \<Rightarrow> int \<times> sim_world" where
  "sim_write f bs w = (int (length bs), w\<lparr>pipe := pipe w @ bs\<rparr>)"

definition sim_env :: "(sim_world, nat) env" where
  "sim_env =
     \<lparr>drv_enable = (\<lambda>i h en w. (enable_err w, w)),
      drv_setDelay = (\<lambda>i h ns w. (0, w)),
      drv_hasPendingEvents = (\<lambda>i w. False),
      drv_readEvents = sim_readEvents,
      sys_poll = sim_poll,
      sys_read = sim_read,
      sys_write = sim_write\<rparr>"

text \<open>The same environment with drivers whose \<^verbatim>\<open>readEvents\<close> reports the error
  \<^verbatim>\<open>-EINVAL\<close> and stores nothing.\<close>

definition sim_err_env :: "(sim_world, nat) env" where
  "sim_err_env = sim_env\<lparr>drv_readEvents := (\<lambda>i room w. ((- EINVAL, []), w))\<rparr>"

definition sim_ids :: sensor_ids where
  "sim_ids = \<lparr>ID_A = 0, ID_M = 1, ID_O = 2, ID_P = 4, ID_L = 3, ID_T = 6\<rparr>"

text \<open>
  A context as the constructor leaves it (six entries with \<^verbatim>\<open>POLLIN\<close> interest,
  the wake pipe's read end last), with the given ready flags.
\<close>

definition sim_fds :: "16 word list \<Rightarrow> pollfd list" where
  "sim_fds rs = map (\<lambda>i. \<lparr>fd = 10 + int i, events = POLLIN, revents = rs ! i\<rparr>) [0..<numFds]"

definition sim_ctx :: "16 word list \<Rightarrow> sim_world \<Rightarrow> sim_world sensors_poll_context_t" where
  "sim_ctx rs w = \<lparr>mPollFds = sim_fds rs, mWritePipeFd = 16, world = w, calls = []\<rparr>"

text \<open>Worlds to start from: nothing pending; two events of the light sensor buffered and a
  \<^verbatim>\<open>poll\<close> that fails with \<^verbatim>\<open>EINTR\<close> (4); two events of the accelerometer
  and one of the proximity sensor buffered; two bytes waiting in the wake pipe.\<close>

definition sim_idle :: sim_world where
  "sim_idle = \<lparr>queues = [[], [], [], [], []], pipe = [], poll_errno = 0, enable_err = 0\<rparr>"

definition sim_light2 :: sim_world where
  "sim_light2 = \<lparr>queues = [[1, 2], [], [], [], []], pipe = [], poll_errno = 0, enable_err = 0\<rparr>"

definition sim_light2_fail :: sim_world where
  "sim_light2_fail = \<lparr>queues = [[1, 2], [], [], [], []], pipe = [], poll_errno = 4, enable_err = 0\<rparr>"

definition sim_kxt2_prox1 :: sim_world where
  "sim_kxt2_prox1 = \<lparr>queues = [[], [5, 6], [], [], [7]], pipe = [], poll_errno = 0, enable_err = 0\<rparr>"

definition sim_two_wakes :: sim_world where
  "sim_two_wakes = \<lparr>queues = [[], [], [], [], []], pipe = ''WW'', poll_errno = 0, enable_err = 0\<rparr>"

definition no_events :: "int \<Rightarrow> nat option" where
  "no_events = Map.empty"

subsection \<open>The invariant of the event count\<close>

text \<open>The events collected and the room left add up to the requested capacity.\<close>

definition within :: "int \<Rightarrow> ('w, 'e) poll_frame \<Rightarrow> bool" where
  "within cap s \<longleftrightarrow> 0 \<le> count s \<and> 0 \<le> nbEvents s \<and> nbEvents s + count s = cap"

section \<open>Properties\<close>

subsection \<open>The mapping\<close>

lemma handleToDriver_cases:
  "handleToDriver ids h = - EINVAL \<or> handleToDriver ids h \<in> {0, 1, 2, 3, 4}"
  by (simp add: handleToDriver_def light_def kxt_def akm_def nct_def proximity_def)

lemma handleToDriver_neg_iff:
  "handleToDriver ids h < 0 \<longleftrightarrow> h \<notin> mapped ids"
  by (auto simp: handleToDriver_def mapped_def EINVAL_def)

lemma handleToDriver_unmapped:
  "h \<notin> mapped ids \<Longrightarrow> handleToDriver ids h = - EINVAL"
  by (auto simp: handleToDriver_def mapped_def)

lemma handleToDriver_slot:
  "h \<in> mapped ids \<Longrightarrow> 0 \<le> handleToDriver ids h \<and> nat (handleToDriver ids h) < numSensorDrivers"
  by (auto simp: handleToDriver_def mapped_def numSensorDrivers_def
      light_def kxt_def akm_def nct_def proximity_def)

subsection \<open>The control operations, case by case\<close>

lemma newCalls_append: "calls c' = calls c @ xs \<Longrightarrow> newCalls c c' = xs"
  by (simp add: newCalls_def)

lemma activate_unmapped:
  "h \<notin> mapped ids \<Longrightarrow> activate ids env h en c = (- EINVAL, c)"
  by (simp add: activate_def Let_def handleToDriver_unmapped EINVAL_def)

lemma setDelay_unmapped:
  "h \<notin> mapped ids \<Longrightarrow> setDelay ids env h ns c = (- EINVAL, c)"
  by (simp add: setDelay_def Let_def handleToDriver_unmapped EINVAL_def)

lemma activate_mapped:
  assumes "h \<in> mapped ids"
  shows "activate ids env h en c =
     (let slot = nat (handleToDriver ids h);
          (err, w1) = drv_enable env slot h en (world c)
      in if en \<noteq> 0 \<and> err = 0
         then (err, c\<lparr>world := snd (sys_write env (mWritePipeFd c) [WAKE_MESSAGE] w1),
                      calls := calls c @ [Enable slot h en, WriteFd (mWritePipeFd c) [WAKE_MESSAGE]]\<rparr>)
         else (err, c\<lparr>world := w1, calls := calls c @ [Enable slot h en]\<rparr>))"
proof -
  have "\<not> handleToDriver ids h < 0"
    using assms by (simp add: handleToDriver_neg_iff)
  then show ?thesis
    by (simp add: activate_def Let_def split: prod.splits)
qed

lemma setDelay_mapped:
  assumes "h \<in> mapped ids"
  shows "setDelay ids env h ns c =
     (let slot = nat (handleToDriver ids h);
          (err, w1) = drv_setDelay env slot h ns (world c)
      in (err, c\<lparr>world := w1, calls := calls c @ [SetDelay slot h ns]\<rparr>))"
proof -
  have "\<not> handleToDriver ids h < 0"
    using assms by (simp add: handleToDriver_neg_iff)
  then show ?thesis
    by (simp add: setDelay_def Let_def split: prod.splits)
qed

lemma activate_calls:
  assumes "h \<in> mapped ids"
    and "drv_enable env (nat (handleToDriver ids h)) h en (world c) = (err, w1)"
  shows "fst (activate ids env h en c) = err"
    and "calls (snd (activate ids env h en c)) =
       calls c @ Enable (nat (handleToDriver ids h)) h en #
         (if en \<noteq> 0 \<and> err = 0 then [WriteFd (mWritePipeFd c) [WAKE_MESSAGE]] else [])"
  using assms by (simp_all add: activate_mapped Let_def)

lemma sim_env_sel:
  "drv_enable sim_env = (\<lambda>i h en w. (enable_err w, w))"
  "drv_setDelay sim_env = (\<lambda>i h ns w. (0, w))"
  "drv_hasPendingEvents sim_env = (\<lambda>i w. False)"
  "drv_readEvents sim_env = sim_readEvents"
  "sys_poll sim_env = sim_poll"
  "sys_read sim_env = sim_read"
  "sys_write sim_env = sim_write"
  by (simp_all add: sim_env_def)

lemma sim_env_bounded: "readEvents_bounded sim_env"
proof -
  have "int (min (nat room) k) \<le> room" if "0 \<le> room" for room :: int and k :: nat
    using that by linarith
  then show ?thesis
    by (simp add: readEvents_bounded_def sim_env_def sim_readEvents_def Let_def)
qed

subsection \<open>The drain pass\<close>

lemma readSensor_fields:
  "drv_readEvents env i (count s) (world (cx s)) = ((nb, evs), w1) \<Longrightarrow>
   count (readSensor env i s) = count s - nb \<and>
   nbEvents (readSensor env i s) = nbEvents s + nb \<and>
   data (readSensor env i s) = data s + nb \<and>
   n_ready (readSensor env i s) = n_ready s \<and>
   buf (readSensor env i s) = storeEvents (buf s) (data s) evs \<and>
   world (cx (readSensor env i s)) = w1 \<and>
   calls (cx (readSensor env i s)) = calls (cx s) @ [ReadEvents i (count s)] \<and>
   mWritePipeFd (cx (readSensor env i s)) = mWritePipeFd (cx s) \<and>
   mPollFds (cx (readSensor env i s)) =
     (if nb < count s then (mPollFds (cx s))[i := (mPollFds (cx s) ! i)\<lparr>revents := 0\<rparr>]
      else mPollFds (cx s))"
  by (simp add: readSensor_def Let_def)

lemma drainStep_ready:
  "sensorReady env i s \<Longrightarrow> drainStep env i s = readSensor env i s"
  by (simp add: drainStep_def)


lemma drainPass_rec:
  "count s \<noteq> 0 \<Longrightarrow> i < numSensorDrivers \<Longrightarrow>
   drainPass env i s = drainPass env (Suc i) (drainStep env i s)"
  by (subst drainPass.simps) simp

lemma drainPass_stop:
  "count s = 0 \<or> \<not> i < numSensorDrivers \<Longrightarrow> drainPass env i s = s"
  by (subst drainPass.simps) auto

lemma drainPass_preserves:
  "(\<And>j t. P t \<Longrightarrow> P (drainStep env j t)) \<Longrightarrow> P s \<Longrightarrow> P (drainPass env i s)"
proof (induction env i s rule: drainPass.induct)
  case (1 env i s)
  show ?case
  proof (cases "count s \<noteq> 0 \<and> i < numSensorDrivers")
    case True
    have "P (drainStep env i s)" by (rule "1.prems"(1)) (rule "1.prems"(2))
    from "1.IH" [OF True "1.prems"(1) this] True show ?thesis by (simp add: drainPass_rec)
  next
    case False
    with "1.prems"(2) show ?thesis by (simp add: drainPass_stop)
  qed
qed








subsection \<open>Counting events\<close>

lemma drainStep_within:
  assumes "readEvents_bounded env" "within cap s"
  shows "within cap (drainStep env i s)"
proof (cases "sensorReady env i s")
  case True
  obtain nb evs w1 where r: "drv_readEvents env i (count s) (world (cx s)) = ((nb, evs), w1)"
    by (cases "drv_readEvents env i (count s) (world (cx s))") auto
  have "0 \<le> count s" using assms(2) by (simp add: within_def)
  with assms(1) have "0 \<le> fst (fst (drv_readEvents env i (count s) (world (cx s)))) \<and>
      fst (fst (drv_readEvents env i (count s) (world (cx s)))) \<le> count s"
    unfolding readEvents_bounded_def by blast
  then have "0 \<le> nb \<and> nb \<le> count s" by (simp add: r)
  with True r assms(2) show ?thesis
    by (simp add: drainStep_def readSensor_fields within_def)
next
  case False
  with assms show ?thesis by (simp add: drainStep_def)
qed

lemma drainPass_within:
  "readEvents_bounded env \<Longrightarrow> within cap s \<Longrightarrow> within cap (drainPass env i s)"
  by (rule drainPass_preserves) (simp_all add: drainStep_within)

lemma waitPass_locals:
  "count (snd (waitPass env s)) = count s \<and> nbEvents (snd (waitPass env s)) = nbEvents s \<and>
   buf (snd (waitPass env s)) = buf s \<and> data (snd (waitPass env s)) = data s"
  by (simp add: waitPass_def Let_def split: prod.splits)

lemma pollBody_locals:
  "count (snd (pollBody env s)) = count (drainPass env 0 s) \<and>
   nbEvents (snd (pollBody env s)) = nbEvents (drainPass env 0 s) \<and>
   buf (snd (pollBody env s)) = buf (drainPass env 0 s) \<and>
   data (snd (pollBody env s)) = data (drainPass env 0 s)"
  by (simp add: pollBody_def Let_def waitPass_locals)

lemma pollBody_within:
  "readEvents_bounded env \<Longrightarrow> within cap s \<Longrightarrow> within cap (snd (pollBody env s))"
  using drainPass_within [of env cap s 0] by (simp add: within_def pollBody_locals)

lemma pollLoop_within:
  "readEvents_bounded env \<Longrightarrow> within cap s \<Longrightarrow> pollLoop env k s = Some (r, s') \<Longrightarrow>
   within cap s' \<and> (\<forall>m. r = Inr m \<longrightarrow> m = nbEvents s')"
proof (induction k arbitrary: s)
  case 0
  then show ?case by simp
next
  case (Suc k)
  obtain e s1 where b: "pollBody env s = (e, s1)" by (cases "pollBody env s") auto
  have s1: "within cap s1"
    using pollBody_within [OF Suc.prems(1,2)] b by simp
  show ?case
  proof (cases e)
    case (Some v)
    with b Suc.prems(3) s1 show ?thesis by auto
  next
    case None
    show ?thesis
    proof (cases "n_ready s1 \<noteq> 0 \<and> count s1 \<noteq> 0")
      case True
      with b None Suc.prems(3) have "pollLoop env k s1 = Some (r, s')" by simp
      from Suc.IH [OF Suc.prems(1) s1 this] show ?thesis .
    next
      case False
      with b None Suc.prems(3) have "r = Inr (nbEvents s1)" "s' = s1" by auto
      with s1 show ?thesis by simp
    qed
  qed
qed

subsection \<open>The wait pass and the loop\<close>

lemma waitPass_fail:
  assumes "sys_poll env (mPollFds (cx s)) numFds (pollTimeout s) (world (cx s)) = ((r, rv, e), w1)"
    and "r < 0"
  shows "waitPass env s =
     (Some (- e), s\<lparr>cx := (cx s)\<lparr>mPollFds := setRevents rv numFds (mPollFds (cx s)), world := w1,
                      calls := calls (cx s) @ [Poll numFds (pollTimeout s)]\<rparr>, n_ready := r\<rparr>)"
  using assms by (simp add: waitPass_def Let_def)


lemma waitPass_world:
  assumes "sys_poll env (mPollFds (cx s)) numFds (pollTimeout s) (world (cx s)) = ((r, rv, e), w1)"
  shows "fst (waitPass env s) = (if r < 0 then Some (- e) else None)"
    and "n_ready (snd (waitPass env s)) = r"
    and "world (cx (snd (waitPass env s))) =
       (if \<not> r < 0 \<and> revents (setRevents rv numFds (mPollFds (cx s)) ! wake) AND POLLIN \<noteq> 0
        then snd (sys_read env (fd (setRevents rv numFds (mPollFds (cx s)) ! wake)) 1 w1) else w1)"
    and "calls (cx (snd (waitPass env s))) =
       calls (cx s) @ Poll numFds (pollTimeout s) #
         (if \<not> r < 0 \<and> revents (setRevents rv numFds (mPollFds (cx s)) ! wake) AND POLLIN \<noteq> 0
          then [ReadFd (fd (setRevents rv numFds (mPollFds (cx s)) ! wake)) 1] else [])"
  using assms by (simp_all add: waitPass_def Let_def split: prod.splits)



lemma pollLoop_continue:
  "pollBody env s = (None, s') \<Longrightarrow> n_ready s' \<noteq> 0 \<and> count s' \<noteq> 0 \<Longrightarrow>
   pollLoop env (Suc k) s = pollLoop env k s'"
  by simp

lemma reach_fuel:
  "reach env s0 s \<Longrightarrow> \<exists>k0. \<forall>k. pollLoop env (k0 + k) s0 = pollLoop env k s"
proof (induction rule: reach.induct)
  case reach_start
  have "\<forall>k. pollLoop env (0 + k) s0 = pollLoop env k s0" by simp
  then show ?case by blast
next
  case (reach_pass s1 s2)
  then obtain k0 where k0: "\<forall>k. pollLoop env (k0 + k) s0 = pollLoop env k s1" by blast
  have "pollLoop env (Suc k0 + k) s0 = pollLoop env k s2" for k
  proof -
    have "pollLoop env (Suc k0 + k) s0 = pollLoop env (k0 + Suc k) s0" by simp
    also have "\<dots> = pollLoop env (Suc k) s1" using k0 by blast
    also have "\<dots> = pollLoop env k s2"
      using reach_pass.hyps(2,3) by (rule pollLoop_continue)
    finally show ?thesis .
  qed
  then show ?case by blast
qed

section \<open>The claims\<close>

text \<open>
  C1. In every context (so after any sequence of earlier calls) the static mapping yields
  its negative sentinel \<open>- EINVAL\<close> exactly for the identifiers outside
  \<open>{ID_A, ID_M, ID_O, ID_P, ID_L, ID_T}\<close>; for such an identifier \<open>activate\<close> and
  \<open>setDelay\<close> return that sentinel and touch nothing (no driver is called). For a
  mapped identifier the driver of the resolved slot is called, and the value returned is
  exactly the value that driver's \<open>enable\<close> or \<open>setDelay\<close> returned.
\<close>

theorem invalid_handle_iff_unmapped:
  "(handleToDriver ids h < 0 \<longleftrightarrow> h \<notin> mapped ids) \<and>
   (h \<notin> mapped ids \<longrightarrow>
      handleToDriver ids h = - EINVAL \<and> - EINVAL < 0 \<and>
      activate ids env h en c = (- EINVAL, c) \<and>
      setDelay ids env h ns c = (- EINVAL, c)) \<and>
   (h \<in> mapped ids \<longrightarrow>
      fst (activate ids env h en c) =
        fst (drv_enable env (nat (handleToDriver ids h)) h en (world c)) \<and>
      fst (setDelay ids env h ns c) =
        fst (drv_setDelay env (nat (handleToDriver ids h)) h ns (world c)) \<and>
      newCalls c (snd (activate ids env h en c)) \<noteq> [] \<and>
      newCalls c (snd (setDelay ids env h ns c)) \<noteq> [])"
proof (cases "h \<in> mapped ids")
  case True
  then show ?thesis
    by (simp add: handleToDriver_neg_iff activate_mapped setDelay_mapped Let_def newCalls_def
        split: prod.splits)
next
  case False
  then show ?thesis
    by (simp add: handleToDriver_neg_iff activate_unmapped setDelay_unmapped
        handleToDriver_unmapped EINVAL_def)
qed

text \<open>C1 at the unmapped identifier 99 and at the light sensor's identifier.\<close>

theorem invalid_handle_iff_unmapped_witness:
  "(99 \<notin> mapped sim_ids \<and>
    activate sim_ids sim_env 99 1 (sim_ctx [0, 0, 0, 0, 0, 0] sim_idle) =
      (- EINVAL, sim_ctx [0, 0, 0, 0, 0, 0] sim_idle) \<and>
    setDelay sim_ids sim_env 99 20000000 (sim_ctx [0, 0, 0, 0, 0, 0] sim_idle) =
      (- EINVAL, sim_ctx [0, 0, 0, 0, 0, 0] sim_idle)) \<and>
   (3 \<in> mapped sim_ids \<and>
    fst (activate sim_ids sim_env 3 1 (sim_ctx [0, 0, 0, 0, 0, 0] sim_idle)) = 0 \<and>
    fst (setDelay sim_ids sim_env 3 20000000 (sim_ctx [0, 0, 0, 0, 0, 0] sim_idle)) = 0)"
proof -
  have a: "99 \<notin> mapped sim_ids" by (simp add: mapped_def sim_ids_def)
  have b: "3 \<in> mapped sim_ids" by (simp add: mapped_def sim_ids_def)
  have e: "fst (drv_enable sim_env (nat (handleToDriver sim_ids 3)) 3 1
             (world (sim_ctx [0, 0, 0, 0, 0, 0] sim_idle))) = 0"
    by (simp add: sim_env_def sim_ctx_def sim_idle_def)
  have d: "fst (drv_setDelay sim_env (nat (handleToDriver sim_ids 3)) 3 20000000
             (world (sim_ctx [0, 0, 0, 0, 0, 0] sim_idle))) = 0"
    by (simp add: sim_env_def)
  from invalid_handle_iff_unmapped [of sim_ids 99 sim_env 1 "sim_ctx [0, 0, 0, 0, 0, 0] sim_idle" 20000000]
       invalid_handle_iff_unmapped [of sim_ids 3 sim_env 1 "sim_ctx [0, 0, 0, 0, 0, 0] sim_idle" 20000000]
       a b e d
  show ?thesis by simp
qed

text \<open>
  C2. With a capacity \<open>cap \<ge> 0\<close> and drivers whose \<open>readEvents\<close> returns between 0 and
  the room it was given, whenever \<open>pollEvents\<close> returns, the accumulated total
  \<open>nbEvents\<close> is at most \<open>cap\<close>, and so is the count it returns.
\<close>

theorem pollEvents_at_most_capacity:
  assumes "readEvents_bounded env" and "0 \<le> cap"
    and "pollEvents env fuel b cap c = Some (r, s')"
  shows "nbEvents s' \<le> cap \<and> (\<forall>m. r = Inr m \<longrightarrow> 0 \<le> m \<and> m \<le> cap)"
proof -
  have start: "within cap (enter c b cap)"
    using assms(2) by (simp add: enter_def within_def)
  have run: "pollLoop env fuel (enter c b cap) = Some (r, s')"
    using assms(3) by (simp only: pollEvents_def)
  have fin: "within cap s'" and res: "\<forall>m. r = Inr m \<longrightarrow> m = nbEvents s'"
    using pollLoop_within [OF assms(1) start run] by blast+
  from fin have "0 \<le> nbEvents s'" "nbEvents s' \<le> cap"
    by (simp_all add: within_def)
  with res show ?thesis by blast
qed

text \<open>C2 on a run that collects three events with room for five.\<close>

theorem pollEvents_at_most_capacity_witness:
  "readEvents_bounded sim_env \<and> (0::int) \<le> 5 \<and>
   map_option fst (pollEvents sim_env 3 no_events 5 (sim_ctx [POLLIN, 0, 0, 0, POLLIN, 0] sim_kxt2_prox1))
     = Some (Inr 3) \<and> (3::int) \<le> 5"
proof -
  have r: "map_option fst
      (pollEvents sim_env 3 no_events 5 (sim_ctx [POLLIN, 0, 0, 0, POLLIN, 0] sim_kxt2_prox1)) = Some (Inr 3)"
    by code_simp
  then obtain s' where
    "pollEvents sim_env 3 no_events 5 (sim_ctx [POLLIN, 0, 0, 0, POLLIN, 0] sim_kxt2_prox1) = Some (Inr 3, s')"
    by auto
  from pollEvents_at_most_capacity [OF sim_env_bounded _ this] r sim_env_bounded show ?thesis by simp
qed

text \<open>
  C3. In any pass of the loop of a \<open>pollEvents\<close> call, if room remains after the drain
  pass and \<open>poll\<close> returns a negative value with \<open>errno = e\<close>, then the call returns
  \<open>- e\<close> (with enough fuel to reach that pass, the model returns), the failing
  \<open>poll\<close> is the last call made, and the events accumulated so far, however many,
  do not show in the returned value, which is negative for a positive \<open>errno\<close>.
  \<open>errno\<close> is read after the log line; the model takes the value the environment
  reports at that point.
\<close>

theorem poll_failure_returns_negated_errno:
  assumes "reach env (enter c b cap) s"
    and "count (drainPass env 0 s) \<noteq> 0"
    and "sys_poll env (mPollFds (cx (drainPass env 0 s))) numFds (pollTimeout (drainPass env 0 s))
           (world (cx (drainPass env 0 s))) = ((r, rv, e), w1)"
    and "r < 0"
  shows "\<exists>k0 s'. (\<forall>k\<ge>k0. pollEvents env k b cap c = Some (Inl (- e), s')) \<and>
           nbEvents s' = nbEvents (drainPass env 0 s) \<and>
           calls (cx s') = calls (cx (drainPass env 0 s)) @ [Poll numFds (pollTimeout (drainPass env 0 s))] \<and>
           (0 < e \<longrightarrow> retval (Inl (- e)) < 0)"
proof -
  define s1 where "s1 = drainPass env 0 s"
  define s' where "s' = s1\<lparr>cx := (cx s1)\<lparr>mPollFds := setRevents rv numFds (mPollFds (cx s1)), world := w1,
                      calls := calls (cx s1) @ [Poll numFds (pollTimeout s1)]\<rparr>, n_ready := r\<rparr>"
  have body: "pollBody env s = (Some (- e), s')"
    using assms(2) waitPass_fail [OF assms(3,4)]
    by (simp add: pollBody_def Let_def s1_def s'_def)
  then have one: "pollLoop env (Suc k) s = Some (Inl (- e), s')" for k by simp
  from reach_fuel [OF assms(1)] obtain k0
    where k0: "\<forall>k. pollLoop env (k0 + k) (enter c b cap) = pollLoop env k s" by blast
  have "pollEvents env k b cap c = Some (Inl (- e), s')" if "Suc k0 \<le> k" for k
  proof -
    from that obtain j where "k = k0 + Suc j"
      by (metis add_Suc_right le_Suc_ex add_Suc)
    with k0 have "pollLoop env k (enter c b cap) = pollLoop env (Suc j) s" by blast
    also have "\<dots> = Some (Inl (- e), s')" by (rule one)
    finally show ?thesis by (simp only: pollEvents_def)
  qed
  then have "\<forall>k\<ge>Suc k0. pollEvents env k b cap c = Some (Inl (- e), s')" by blast
  moreover have "nbEvents s' = nbEvents s1" "calls (cx s') = calls (cx s1) @ [Poll numFds (pollTimeout s1)]"
    by (simp_all add: s'_def)
  ultimately show ?thesis unfolding s1_def by auto
qed

text \<open>C3 on the scenario of the specification: two events collected, then \<open>poll\<close> fails.\<close>

theorem poll_failure_returns_negated_errno_witness:
  "\<exists>k0 s'. (\<forall>k\<ge>k0. pollEvents sim_env k no_events 5 (sim_ctx [POLLIN, 0, 0, 0, 0, 0] sim_light2_fail)
                = Some (Inl (- 4), s')) \<and>
     nbEvents s' = 2 \<and> retval (Inl (- 4)) < 0"
proof -
  let ?s = "enter (sim_ctx [POLLIN, 0, 0, 0, 0, 0] sim_light2_fail) no_events 5"
  let ?d = "drainPass sim_env 0 ?s"
  have h1: "reach sim_env ?s ?s" by (rule reach_start)
  have h2: "count ?d \<noteq> 0" by code_simp
  have nb: "nbEvents ?d = 2" by code_simp
  have pe: "poll_errno (world (cx ?d)) = 4" by code_simp
  have h3: "sys_poll sim_env (mPollFds (cx ?d)) numFds (pollTimeout ?d) (world (cx ?d)) =
      ((- 1, (\<lambda>i. 0), 4), world (cx ?d))"
    by (simp add: sim_env_sel sim_poll_def pe)
  have h4: "(- 1 :: int) < 0" by simp
  from poll_failure_returns_negated_errno [OF h1 h2 h3 h4] obtain k0 s'
    where "\<forall>k\<ge>k0. pollEvents sim_env k no_events 5 (sim_ctx [POLLIN, 0, 0, 0, 0, 0] sim_light2_fail)
                = Some (Inl (- 4), s')"
      and "nbEvents s' = nbEvents ?d" and "(0::int) < 4 \<longrightarrow> retval (Inl (- 4)) < 0"
    by blast
  with nb have "(\<forall>k\<ge>k0. pollEvents sim_env k no_events 5 (sim_ctx [POLLIN, 0, 0, 0, 0, 0] sim_light2_fail)
                = Some (Inl (- 4), s')) \<and> nbEvents s' = 2 \<and> retval (Inl (- 4)) < 0"
    by simp
  then show ?thesis by blast
qed



text \<open>
  C5. For a mapped identifier, \<open>activate\<close> calls the resolved driver's \<open>enable\<close> and
  returns its error code, whatever \<open>write\<close> does. When \<open>enabled\<close> is not 0 and
  \<open>enable\<close> returned 0, it then does exactly one \<open>write\<close>, of the single byte
  \<open>WAKE_MESSAGE\<close> to \<open>mWritePipeFd\<close>: the state of the collaborators afterwards is
  the one that \<open>write\<close> leaves, starting from the one \<open>enable\<close> left. Otherwise
  nothing is written: the state afterwards is the one \<open>enable\<close> left. Nothing else of
  the context changes.
\<close>

theorem activate_wake_byte:
  assumes "h \<in> mapped ids"
    and "drv_enable env (nat (handleToDriver ids h)) h en (world c) = (err, w1)"
  shows "activate ids env h en c =
           (err, c\<lparr>world := (if en \<noteq> 0 \<and> err = 0
                                then snd (sys_write env (mWritePipeFd c) [WAKE_MESSAGE] w1) else w1),
                    calls := calls c @ Enable (nat (handleToDriver ids h)) h en #
                      (if en \<noteq> 0 \<and> err = 0 then [WriteFd (mWritePipeFd c) [WAKE_MESSAGE]] else [])\<rparr>) \<and>
         world (snd (activate ids env h en c)) =
           (if en \<noteq> 0 \<and> err = 0
            then snd (sys_write env (mWritePipeFd c) [WAKE_MESSAGE] w1) else w1) \<and>
         fst (activate ids env h en c) = err \<and>
         (\<forall>wr. fst (activate ids (env\<lparr>sys_write := wr\<rparr>) h en c) = err) \<and>
         newCalls c (snd (activate ids env h en c)) =
           Enable (nat (handleToDriver ids h)) h en #
             (if en \<noteq> 0 \<and> err = 0 then [WriteFd (mWritePipeFd c) [WAKE_MESSAGE]] else [])"
proof -
  have eq: "activate ids env h en c =
           (err, c\<lparr>world := (if en \<noteq> 0 \<and> err = 0
                                then snd (sys_write env (mWritePipeFd c) [WAKE_MESSAGE] w1) else w1),
                    calls := calls c @ Enable (nat (handleToDriver ids h)) h en #
                      (if en \<noteq> 0 \<and> err = 0 then [WriteFd (mWritePipeFd c) [WAKE_MESSAGE]] else [])\<rparr>)"
    using assms(2) by (simp add: activate_mapped [OF assms(1)] Let_def)
  have wr: "fst (activate ids (env\<lparr>sys_write := wr\<rparr>) h en c) = err" for wr
  proof -
    have "drv_enable (env\<lparr>sys_write := wr\<rparr>) (nat (handleToDriver ids h)) h en (world c) = (err, w1)"
      using assms(2) by simp
    with assms(1) show ?thesis by (rule activate_calls(1))
  qed
  have nc: "newCalls c (snd (activate ids env h en c)) =
           Enable (nat (handleToDriver ids h)) h en #
             (if en \<noteq> 0 \<and> err = 0 then [WriteFd (mWritePipeFd c) [WAKE_MESSAGE]] else [])"
    using activate_calls(2) [OF assms] by (rule newCalls_append)
  have w: "world (snd (activate ids env h en c)) =
           (if en \<noteq> 0 \<and> err = 0
            then snd (sys_write env (mWritePipeFd c) [WAKE_MESSAGE] w1) else w1)"
    by (simp add: eq)
  have f: "fst (activate ids env h en c) = err" by (simp add: eq)
  from eq w f wr nc show ?thesis by blast
qed

text \<open>
  C5 on an enable that succeeds (the pipe then holds the one byte), on a disable and on an
  enable that fails (the pipe stays empty).
\<close>

theorem activate_wake_byte_witness:
  "fst (activate sim_ids sim_env 3 1 (sim_ctx [0, 0, 0, 0, 0, 0] sim_idle)) = 0 \<and>
   pipe (world (snd (activate sim_ids sim_env 3 1 (sim_ctx [0, 0, 0, 0, 0, 0] sim_idle)))) = ''W'' \<and>
   newCalls (sim_ctx [0, 0, 0, 0, 0, 0] sim_idle)
     (snd (activate sim_ids sim_env 3 1 (sim_ctx [0, 0, 0, 0, 0, 0] sim_idle))) =
     [Enable light 3 1, WriteFd 16 ''W''] \<and>
   pipe (world (snd (activate sim_ids sim_env 3 0 (sim_ctx [0, 0, 0, 0, 0, 0] sim_idle)))) = [] \<and>
   newCalls (sim_ctx [0, 0, 0, 0, 0, 0] sim_idle)
     (snd (activate sim_ids sim_env 3 0 (sim_ctx [0, 0, 0, 0, 0, 0] sim_idle))) =
     [Enable light 3 0] \<and>
   fst (activate sim_ids sim_env 3 1 (sim_ctx [0, 0, 0, 0, 0, 0] (sim_idle\<lparr>enable_err := - 5\<rparr>))) = - 5 \<and>
   pipe (world (snd (activate sim_ids sim_env 3 1
     (sim_ctx [0, 0, 0, 0, 0, 0] (sim_idle\<lparr>enable_err := - 5\<rparr>))))) = [] \<and>
   newCalls (sim_ctx [0, 0, 0, 0, 0, 0] (sim_idle\<lparr>enable_err := - 5\<rparr>))
     (snd (activate sim_ids sim_env 3 1 (sim_ctx [0, 0, 0, 0, 0, 0] (sim_idle\<lparr>enable_err := - 5\<rparr>)))) =
     [Enable light 3 1]"
proof -
  let ?c = "sim_ctx [0, 0, 0, 0, 0, 0] sim_idle"
  let ?c' = "sim_ctx [0, 0, 0, 0, 0, 0] (sim_idle\<lparr>enable_err := - 5\<rparr>)"
  have m: "3 \<in> mapped sim_ids" by (simp add: mapped_def sim_ids_def)
  have sl: "nat (handleToDriver sim_ids 3) = light"
    by (simp add: handleToDriver_def sim_ids_def light_def)
  have fd: "mWritePipeFd ?c = 16" "mWritePipeFd ?c' = 16" by (simp_all add: sim_ctx_def)
  have e1: "drv_enable sim_env (nat (handleToDriver sim_ids 3)) 3 1 (world ?c) = (0, sim_idle)"
    by (simp add: sim_env_sel sim_ctx_def sim_idle_def)
  have e0: "drv_enable sim_env (nat (handleToDriver sim_ids 3)) 3 0 (world ?c) = (0, sim_idle)"
    by (simp add: sim_env_sel sim_ctx_def sim_idle_def)
  have e5: "drv_enable sim_env (nat (handleToDriver sim_ids 3)) 3 1 (world ?c') =
      (- 5, sim_idle\<lparr>enable_err := - 5\<rparr>)"
    by (simp add: sim_env_sel sim_ctx_def sim_idle_def)
  have p: "pipe (snd (sys_write sim_env 16 ''W'' sim_idle)) = ''W''" "pipe sim_idle = []"
    by (simp_all add: sim_env_sel sim_write_def sim_idle_def)
  note a = activate_wake_byte [OF m e1, unfolded sl fd WAKE_MESSAGE_def]
    and b = activate_wake_byte [OF m e0, unfolded sl fd WAKE_MESSAGE_def]
    and d = activate_wake_byte [OF m e5, unfolded sl fd WAKE_MESSAGE_def]
  have "fst (activate sim_ids sim_env 3 1 ?c) = 0"
    "world (snd (activate sim_ids sim_env 3 1 ?c)) = snd (sys_write sim_env 16 ''W'' sim_idle)"
    "newCalls ?c (snd (activate sim_ids sim_env 3 1 ?c)) = [Enable light 3 1, WriteFd 16 ''W'']"
    using a [THEN conjunct2, THEN conjunct2, THEN conjunct1]
      a [THEN conjunct2, THEN conjunct1]
      a [THEN conjunct2, THEN conjunct2, THEN conjunct2, THEN conjunct2]
    by simp_all
  moreover have "world (snd (activate sim_ids sim_env 3 0 ?c)) = sim_idle"
    "newCalls ?c (snd (activate sim_ids sim_env 3 0 ?c)) = [Enable light 3 0]"
    using b [THEN conjunct2, THEN conjunct1]
      b [THEN conjunct2, THEN conjunct2, THEN conjunct2, THEN conjunct2]
    by simp_all
  moreover have "fst (activate sim_ids sim_env 3 1 ?c') = - 5"
    "world (snd (activate sim_ids sim_env 3 1 ?c')) = sim_idle\<lparr>enable_err := - 5\<rparr>"
    "newCalls ?c' (snd (activate sim_ids sim_env 3 1 ?c')) = [Enable light 3 1]"
    using d [THEN conjunct2, THEN conjunct2, THEN conjunct1]
      d [THEN conjunct2, THEN conjunct1]
      d [THEN conjunct2, THEN conjunct2, THEN conjunct2, THEN conjunct2]
    by simp_all
  ultimately show ?thesis using p by simp
qed

text \<open>
  C6. In a drain step that reads driver \<open>i\<close>: if \<open>readEvents\<close> returns less than the
  room it was offered, the \<open>revents\<close> of slot \<open>i\<close> is 0 afterwards; if it returns exactly
  the room, the whole \<open>mPollFds\<close> array, and with it the \<open>revents\<close> of slot \<open>i\<close>, is
  unchanged.
\<close>

theorem short_read_clears_revents:
  assumes "i < numSensorDrivers" and "length (mPollFds (cx s)) = numFds"
    and "sensorReady env i s"
    and "drv_readEvents env i (count s) (world (cx s)) = ((nb, evs), w1)"
  shows "newCalls (cx s) (cx (drainStep env i s)) = [ReadEvents i (count s)] \<and>
         (nb < count s \<longrightarrow> revents (mPollFds (cx (drainStep env i s)) ! i) = 0) \<and>
         (nb = count s \<longrightarrow> mPollFds (cx (drainStep env i s)) = mPollFds (cx s) \<and>
            revents (mPollFds (cx (drainStep env i s)) ! i) = revents (mPollFds (cx s) ! i))"
proof -
  note f = readSensor_fields [OF assms(4)]
  have d: "drainStep env i s = readSensor env i s"
    using assms(3) by (rule drainStep_ready)
  have il: "i < length (mPollFds (cx s))"
    using assms(1,2) by (simp add: numSensorDrivers_def numFds_def)
  have "newCalls (cx s) (cx (drainStep env i s)) = [ReadEvents i (count s)]"
    using f by (simp add: d newCalls_append)
  moreover have "revents (mPollFds (cx (drainStep env i s)) ! i) = 0" if "nb < count s"
    using f il that by (simp add: d)
  moreover have "mPollFds (cx (drainStep env i s)) = mPollFds (cx s)" if "nb = count s"
    using f that by (simp add: d)
  ultimately show ?thesis by simp
qed

text \<open>C6 on a driver holding two events, offered room for five and room for two.\<close>

theorem short_read_clears_revents_witness:
  "revents (mPollFds (cx (enter (sim_ctx [POLLIN, 0, 0, 0, 0, 0] sim_light2) no_events 5)) ! light) = POLLIN \<and>
   revents (mPollFds (cx (drainStep sim_env light
       (enter (sim_ctx [POLLIN, 0, 0, 0, 0, 0] sim_light2) no_events 5))) ! light) = 0 \<and>
   revents (mPollFds (cx (drainStep sim_env light
       (enter (sim_ctx [POLLIN, 0, 0, 0, 0, 0] sim_light2) no_events 2))) ! light) = POLLIN"
proof -
  let ?c = "sim_ctx [POLLIN, 0, 0, 0, 0, 0] sim_light2"
  let ?s5 = "enter ?c no_events 5"
  let ?s2 = "enter ?c no_events 2"
  have i: "light < numSensorDrivers" by (simp add: light_def numSensorDrivers_def)
  have l: "length (mPollFds (cx ?s5)) = numFds" "length (mPollFds (cx ?s2)) = numFds"
    by (simp_all add: enter_def sim_ctx_def sim_fds_def)
  have r: "sensorReady sim_env light ?s5" "sensorReady sim_env light ?s2" by code_simp+
  have "fst (drv_readEvents sim_env light (count ?s5) (world (cx ?s5))) = (2, [1, 2])" by code_simp
  then have d5: "drv_readEvents sim_env light (count ?s5) (world (cx ?s5)) =
      ((2, [1, 2]), snd (drv_readEvents sim_env light (count ?s5) (world (cx ?s5))))"
    by (metis prod.collapse)
  have "fst (drv_readEvents sim_env light (count ?s2) (world (cx ?s2))) = (2, [1, 2])" by code_simp
  then have d2: "drv_readEvents sim_env light (count ?s2) (world (cx ?s2)) =
      ((2, [1, 2]), snd (drv_readEvents sim_env light (count ?s2) (world (cx ?s2))))"
    by (metis prod.collapse)
  have c: "count ?s5 = 5" "count ?s2 = 2" by (simp_all add: enter_def)
  have p: "revents (mPollFds (cx ?s5) ! light) = POLLIN" "revents (mPollFds (cx ?s2) ! light) = POLLIN"
    by code_simp+
  from short_read_clears_revents [OF i l(1) r(1) d5] short_read_clears_revents [OF i l(2) r(2) d2] c p show ?thesis by simp
qed

text \<open>
  C7 as stated fails. The code tests \<open>nbEvents\<close> for being non-zero, not for being
  positive. When the one ready driver's \<open>readEvents\<close> returns the error code
  \<open>- EINVAL\<close>, no event has been accumulated (\<open>nbEvents = - 22\<close>, nothing stored in the
  buffer), room remains, and the wait is issued with timeout 0.
\<close>

theorem wait_nonblocking_without_events:
  "nbEvents (drainPass sim_err_env 0 (enter (sim_ctx [POLLIN, 0, 0, 0, 0, 0] sim_idle) no_events 5)) = - 22 \<and>
   count (drainPass sim_err_env 0 (enter (sim_ctx [POLLIN, 0, 0, 0, 0, 0] sim_idle) no_events 5)) = 27 \<and>
   buf (drainPass sim_err_env 0 (enter (sim_ctx [POLLIN, 0, 0, 0, 0, 0] sim_idle) no_events 5)) 0 = None \<and>
   newCalls (sim_ctx [POLLIN, 0, 0, 0, 0, 0] sim_idle)
     (cx (snd (pollBody sim_err_env (enter (sim_ctx [POLLIN, 0, 0, 0, 0, 0] sim_idle) no_events 5)))) =
     [ReadEvents 0 5, Poll 6 0] \<and>
   map_option fst (pollEvents sim_err_env 1 no_events 5 (sim_ctx [POLLIN, 0, 0, 0, 0, 0] sim_idle)) =
     Some (Inr (- 22))"
  by code_simp

text \<open>
  C7, amended. In a wait pass (the pass of \<open>pollEvents\<close> reaches it exactly when room
  remains after the drain pass), \<open>poll\<close> is called on all \<open>numFds\<close> entries with
  timeout 0 if \<open>nbEvents\<close> is not 0 and with timeout \<open>- 1\<close> (wait without limit) if it
  is 0: the first call made is that \<open>poll\<close>, and the value of \<open>n\<close>, the early return
  and the state of the collaborators afterwards are those of that call's result. Where
  \<open>nbEvents\<close> is not negative, the timeout is 0 exactly when \<open>nbEvents > 0\<close>. The
  statement is about any values of the locals, so it does not depend on how sums of counts
  are computed.
\<close>

theorem wait_timeout_zero_iff_nbEvents_nonzero:
  assumes "sys_poll env (mPollFds (cx s)) numFds (if nbEvents s \<noteq> 0 then 0 else - 1) (world (cx s)) =
             ((r, rv, e), w1)"
  shows "newCalls (cx s) (cx (snd (waitPass env s))) =
           Poll numFds (if nbEvents s \<noteq> 0 then 0 else - 1) #
             (if \<not> r < 0 \<and> revents (setRevents rv numFds (mPollFds (cx s)) ! wake) AND POLLIN \<noteq> 0
              then [ReadFd (fd (setRevents rv numFds (mPollFds (cx s)) ! wake)) 1] else []) \<and>
         fst (waitPass env s) = (if r < 0 then Some (- e) else None) \<and>
         n_ready (snd (waitPass env s)) = r \<and>
         world (cx (snd (waitPass env s))) =
           (if \<not> r < 0 \<and> revents (setRevents rv numFds (mPollFds (cx s)) ! wake) AND POLLIN \<noteq> 0
            then snd (sys_read env (fd (setRevents rv numFds (mPollFds (cx s)) ! wake)) 1 w1) else w1) \<and>
         (0 \<le> nbEvents s \<longrightarrow>
            ((if nbEvents s \<noteq> 0 then (0::int) else - 1) = 0 \<longleftrightarrow> 0 < nbEvents s)) \<and>
         (count (drainPass env 0 s0) \<noteq> 0 \<longrightarrow> pollBody env s0 = waitPass env (drainPass env 0 s0)) \<and>
         (count (drainPass env 0 s0) = 0 \<longrightarrow> pollBody env s0 = (None, drainPass env 0 s0))"
proof -
  have p: "sys_poll env (mPollFds (cx s)) numFds (pollTimeout s) (world (cx s)) = ((r, rv, e), w1)"
    using assms by (simp only: pollTimeout_def)
  note w = waitPass_world [OF p]
  have 1: "newCalls (cx s) (cx (snd (waitPass env s))) =
           Poll numFds (if nbEvents s \<noteq> 0 then 0 else - 1) #
             (if \<not> r < 0 \<and> revents (setRevents rv numFds (mPollFds (cx s)) ! wake) AND POLLIN \<noteq> 0
              then [ReadFd (fd (setRevents rv numFds (mPollFds (cx s)) ! wake)) 1] else [])"
    using w(4) [unfolded pollTimeout_def] by (rule newCalls_append)
  have 5: "0 \<le> nbEvents s \<longrightarrow>
            ((if nbEvents s \<noteq> 0 then (0::int) else - 1) = 0 \<longleftrightarrow> 0 < nbEvents s)"
    by simp
  have 6: "count (drainPass env 0 s0) \<noteq> 0 \<longrightarrow> pollBody env s0 = waitPass env (drainPass env 0 s0)"
    by (simp add: pollBody_def)
  have 7: "count (drainPass env 0 s0) = 0 \<longrightarrow> pollBody env s0 = (None, drainPass env 0 s0)"
    by (simp add: pollBody_def)
  from 1 w(1) w(2) w(3) 5 6 7 show ?thesis by blast
qed

text \<open>The amended C7 on a pass that has collected two events and on a pass that has collected none.\<close>

theorem wait_timeout_zero_iff_nbEvents_nonzero_witness:
  "newCalls (cx (drainPass sim_env 0 (enter (sim_ctx [POLLIN, 0, 0, 0, 0, 0] sim_light2) no_events 5)))
      (cx (snd (waitPass sim_env
         (drainPass sim_env 0 (enter (sim_ctx [POLLIN, 0, 0, 0, 0, 0] sim_light2) no_events 5))))) =
     [Poll numFds 0] \<and>
   n_ready (snd (waitPass sim_env
         (drainPass sim_env 0 (enter (sim_ctx [POLLIN, 0, 0, 0, 0, 0] sim_light2) no_events 5)))) = 0 \<and>
   newCalls (cx (enter (sim_ctx [0, 0, 0, 0, 0, 0] sim_two_wakes) no_events 5))
      (cx (snd (waitPass sim_env (enter (sim_ctx [0, 0, 0, 0, 0, 0] sim_two_wakes) no_events 5)))) =
     [Poll numFds (- 1), ReadFd 15 1] \<and>
   n_ready (snd (waitPass sim_env (enter (sim_ctx [0, 0, 0, 0, 0, 0] sim_two_wakes) no_events 5))) = 1"
proof -
  let ?a = "drainPass sim_env 0 (enter (sim_ctx [POLLIN, 0, 0, 0, 0, 0] sim_light2) no_events 5)"
  let ?b = "enter (sim_ctx [0, 0, 0, 0, 0, 0] sim_two_wakes) no_events 5"
  have na: "nbEvents ?a = 2" by code_simp
  have nb: "nbEvents ?b = 0" by code_simp
  have ka: "int (length (filter (\<lambda>i. sim_revents (world (cx ?a)) i \<noteq> 0) [0..<numFds])) = 0"
    by code_simp
  have kb: "int (length (filter (\<lambda>i. sim_revents (world (cx ?b)) i \<noteq> 0) [0..<numFds])) = 1"
    by code_simp
  have ea: "poll_errno (world (cx ?a)) = 0" by code_simp
  have eb: "poll_errno (world (cx ?b)) = 0" by code_simp
  have pa: "sys_poll sim_env (mPollFds (cx ?a)) numFds (if nbEvents ?a \<noteq> 0 then 0 else - 1) (world (cx ?a)) =
      ((0, sim_revents (world (cx ?a)), 0), world (cx ?a))"
    by (simp add: sim_env_sel sim_poll_def ka ea)
  have pb: "sys_poll sim_env (mPollFds (cx ?b)) numFds (if nbEvents ?b \<noteq> 0 then 0 else - 1) (world (cx ?b)) =
      ((1, sim_revents (world (cx ?b)), 0), world (cx ?b))"
    by (simp add: sim_env_sel sim_poll_def kb eb)
  have ra: "\<not> (revents (setRevents (sim_revents (world (cx ?a))) numFds (mPollFds (cx ?a)) ! wake) AND POLLIN \<noteq> 0)"
    by code_simp
  have rb: "revents (setRevents (sim_revents (world (cx ?b))) numFds (mPollFds (cx ?b)) ! wake) AND POLLIN \<noteq> 0"
    by code_simp
  have fb: "fd (setRevents (sim_revents (world (cx ?b))) numFds (mPollFds (cx ?b)) ! wake) = 15"
    by code_simp
  note a = wait_timeout_zero_iff_nbEvents_nonzero [OF pa] and b = wait_timeout_zero_iff_nbEvents_nonzero [OF pb]
  have "newCalls (cx ?a) (cx (snd (waitPass sim_env ?a))) = [Poll numFds 0]"
    using a [THEN conjunct1] na ra by simp
  moreover have "n_ready (snd (waitPass sim_env ?a)) = 0"
    using a [THEN conjunct2, THEN conjunct2, THEN conjunct1] .
  moreover have "newCalls (cx ?b) (cx (snd (waitPass sim_env ?b))) = [Poll numFds (- 1), ReadFd 15 1]"
    using b [THEN conjunct1] nb rb fb by simp
  moreover have "n_ready (snd (waitPass sim_env ?b)) = 1"
    using b [THEN conjunct2, THEN conjunct2, THEN conjunct1] .
  ultimately show ?thesis by simp
qed




text \<open>
  C9. For a mapped identifier \<open>setDelay\<close> does exactly one thing: it calls the resolved
  driver's \<open>setDelay\<close> with the original identifier and the interval, returns its
  result, and leaves the collaborators in the state that call left. For an unmapped
  identifier it changes nothing. In no case does it write to the wake pipe: its outcome
  does not depend on what \<open>write\<close> would do, and no \<open>write\<close> is among its calls.
\<close>

theorem setDelay_delegates_without_wake:
  "(h \<in> mapped ids \<longrightarrow>
      setDelay ids env h ns c =
        (fst (drv_setDelay env (nat (handleToDriver ids h)) h ns (world c)),
         c\<lparr>world := snd (drv_setDelay env (nat (handleToDriver ids h)) h ns (world c)),
           calls := calls c @ [SetDelay (nat (handleToDriver ids h)) h ns]\<rparr>) \<and>
      world (snd (setDelay ids env h ns c)) =
        snd (drv_setDelay env (nat (handleToDriver ids h)) h ns (world c)) \<and>
      fst (setDelay ids env h ns c) = fst (drv_setDelay env (nat (handleToDriver ids h)) h ns (world c)) \<and>
      newCalls c (snd (setDelay ids env h ns c)) = [SetDelay (nat (handleToDriver ids h)) h ns]) \<and>
   (h \<notin> mapped ids \<longrightarrow> setDelay ids env h ns c = (- EINVAL, c)) \<and>
   (\<forall>wr. setDelay ids (env\<lparr>sys_write := wr\<rparr>) h ns c = setDelay ids env h ns c) \<and>
   (\<forall>f bs. WriteFd f bs \<notin> set (newCalls c (snd (setDelay ids env h ns c))))"
proof (cases "h \<in> mapped ids")
  case True
  have eq: "setDelay ids env h ns c =
        (fst (drv_setDelay env (nat (handleToDriver ids h)) h ns (world c)),
         c\<lparr>world := snd (drv_setDelay env (nat (handleToDriver ids h)) h ns (world c)),
           calls := calls c @ [SetDelay (nat (handleToDriver ids h)) h ns]\<rparr>)" for env :: "('a, 'b) env"
    by (simp add: setDelay_mapped [OF True] Let_def split: prod.splits)
  have "setDelay ids (env\<lparr>sys_write := wr\<rparr>) h ns c = setDelay ids env h ns c" for wr
    by (simp add: eq)
  with True show ?thesis
    by (simp add: eq newCalls_def)
next
  case False
  then show ?thesis
    by (simp add: setDelay_unmapped newCalls_def)
qed

text \<open>C9 at the light sensor's identifier (the pipe stays empty) and at the unmapped identifier 99.\<close>

theorem setDelay_delegates_without_wake_witness:
  "fst (setDelay sim_ids sim_env 3 20000000 (sim_ctx [0, 0, 0, 0, 0, 0] sim_idle)) = 0 \<and>
   world (snd (setDelay sim_ids sim_env 3 20000000 (sim_ctx [0, 0, 0, 0, 0, 0] sim_idle))) = sim_idle \<and>
   pipe (world (snd (setDelay sim_ids sim_env 3 20000000 (sim_ctx [0, 0, 0, 0, 0, 0] sim_idle)))) = [] \<and>
   newCalls (sim_ctx [0, 0, 0, 0, 0, 0] sim_idle)
     (snd (setDelay sim_ids sim_env 3 20000000 (sim_ctx [0, 0, 0, 0, 0, 0] sim_idle))) =
     [SetDelay light 3 20000000] \<and>
   setDelay sim_ids sim_env 99 20000000 (sim_ctx [0, 0, 0, 0, 0, 0] sim_idle) =
     (- EINVAL, sim_ctx [0, 0, 0, 0, 0, 0] sim_idle)"
proof -
  let ?c = "sim_ctx [0, 0, 0, 0, 0, 0] sim_idle"
  have m: "3 \<in> mapped sim_ids" "99 \<notin> mapped sim_ids" by (simp_all add: mapped_def sim_ids_def)
  have sl: "nat (handleToDriver sim_ids 3) = light"
    by (simp add: handleToDriver_def sim_ids_def light_def)
  have d: "drv_setDelay sim_env light 3 20000000 (world ?c) = (0, sim_idle)"
    by (simp add: sim_env_sel sim_ctx_def)
  have p: "pipe sim_idle = []" by (simp add: sim_idle_def)
  note a = setDelay_delegates_without_wake [of 3 sim_ids sim_env 20000000 ?c, THEN conjunct1, THEN mp, OF m(1), unfolded sl d fst_conv snd_conv]
    and b = setDelay_delegates_without_wake [of 99 sim_ids sim_env 20000000 ?c, THEN conjunct2, THEN conjunct1, THEN mp, OF m(2)]
  have "fst (setDelay sim_ids sim_env 3 20000000 ?c) = 0"
    "world (snd (setDelay sim_ids sim_env 3 20000000 ?c)) = sim_idle"
    "newCalls ?c (snd (setDelay sim_ids sim_env 3 20000000 ?c)) = [SetDelay light 3 20000000]"
    using a [THEN conjunct2, THEN conjunct2, THEN conjunct1]
      a [THEN conjunct2, THEN conjunct1]
      a [THEN conjunct2, THEN conjunct2, THEN conjunct2]
    by simp_all
  then show ?thesis using b p by simp
qed

text \<open>
  C10. \<open>activate\<close> and \<open>setDelay\<close> leave \<open>mPollFds\<close> (every descriptor, interest
  and readiness flag, the wake entry included) and \<open>mWritePipeFd\<close> as they were, for
  every identifier and argument. Beyond the driver call, the only thing \<open>activate\<close>
  does is the \<open>write\<close> of the wake byte to \<open>mWritePipeFd\<close>.
\<close>

theorem control_keeps_poll_set:
  "mPollFds (snd (activate ids env h en c)) = mPollFds c \<and>
   mWritePipeFd (snd (activate ids env h en c)) = mWritePipeFd c \<and>
   mPollFds (snd (setDelay ids env h ns c)) = mPollFds c \<and>
   mWritePipeFd (snd (setDelay ids env h ns c)) = mWritePipeFd c \<and>
   (\<forall>x \<in> set (newCalls c (snd (activate ids env h en c))).
      x = Enable (nat (handleToDriver ids h)) h en \<or> x = WriteFd (mWritePipeFd c) [WAKE_MESSAGE]) \<and>
   (\<forall>x \<in> set (newCalls c (snd (setDelay ids env h ns c))).
      x = SetDelay (nat (handleToDriver ids h)) h ns)"
proof (cases "h \<in> mapped ids")
  case True
  then show ?thesis
    by (simp add: activate_mapped setDelay_mapped Let_def newCalls_def split: prod.splits)
next
  case False
  then show ?thesis
    by (simp add: activate_unmapped setDelay_unmapped newCalls_def)
qed

text \<open>C10 at the light sensor's identifier, with the wake entry flagged ready.\<close>

theorem control_keeps_poll_set_witness:
  "mPollFds (snd (activate sim_ids sim_env 3 1 (sim_ctx [0, 0, 0, 0, 0, POLLIN] sim_idle))) =
     mPollFds (sim_ctx [0, 0, 0, 0, 0, POLLIN] sim_idle) \<and>
   mPollFds (snd (setDelay sim_ids sim_env 3 20000000 (sim_ctx [0, 0, 0, 0, 0, POLLIN] sim_idle))) =
     mPollFds (sim_ctx [0, 0, 0, 0, 0, POLLIN] sim_idle) \<and>
   set (newCalls (sim_ctx [0, 0, 0, 0, 0, POLLIN] sim_idle)
        (snd (activate sim_ids sim_env 3 1 (sim_ctx [0, 0, 0, 0, 0, POLLIN] sim_idle))))
     \<subseteq> {Enable light 3 1, WriteFd 16 ''W''} \<and>
   set (newCalls (sim_ctx [0, 0, 0, 0, 0, POLLIN] sim_idle)
        (snd (setDelay sim_ids sim_env 3 20000000 (sim_ctx [0, 0, 0, 0, 0, POLLIN] sim_idle))))
     \<subseteq> {SetDelay light 3 20000000}"
proof -
  have sl: "nat (handleToDriver sim_ids 3) = light"
    by (simp add: handleToDriver_def sim_ids_def light_def)
  have fd: "mWritePipeFd (sim_ctx [0, 0, 0, 0, 0, POLLIN] sim_idle) = 16" by (simp add: sim_ctx_def)
  from control_keeps_poll_set [of sim_ids sim_env 3 1 "sim_ctx [0, 0, 0, 0, 0, POLLIN] sim_idle" 20000000]
  show ?thesis unfolding sl fd WAKE_MESSAGE_def by blast
qed

end
